theory Spec2Isabelle
  imports Main
begin

section \<open>Host values, classes and exceptions\<close>

text \<open>
  The library \<^verbatim>\<open>overload\<close> (file \<^verbatim>\<open>overload/__init__.py\<close>) dispatches a call to the
  first registered function whose signature binds the arguments and whose annotations
  accept the bound values. The parts of the host that it calls
  (\<^verbatim>\<open>isinstance\<close>, \<^verbatim>\<open>inspect.Signature.bind\<close>, \<^verbatim>\<open>BoundArguments.apply_defaults\<close>) are
  modelled after CPython 3.11.

  A value carries its class. The payload of a float and of an instance of a user class
  is not modelled: \<open>VFloat n\<close> and \<open>VInstance c n\<close> are told apart by \<open>n\<close> only.
\<close>

datatype pyclass =
  C_object | C_int | C_bool | C_float | C_str | C_NoneType | C_tuple | C_dict | C_user string

datatype pyval =
  VInt int | VBool bool | VStr string | VNone
  | VFloat nat | VTuple "pyval list" | VDict "(string \<times> pyval) list" | VInstance string nat

datatype pyexc =
  TypeError string | AttributeError string | KeyError string | IndexError string
  | UserError string string

fun type_of :: "pyval \<Rightarrow> pyclass" where
  "type_of (VInt _) = C_int"
| "type_of (VBool _) = C_bool"
| "type_of (VStr _) = C_str"
| "type_of VNone = C_NoneType"
| "type_of (VTuple _) = C_tuple"
| "type_of (VDict _) = C_dict"
| "type_of (VFloat _) = C_float"
| "type_of (VInstance c _) = C_user c"

text \<open>Every class derives from \<^verbatim>\<open>object\<close>, and \<^verbatim>\<open>bool\<close> derives from \<^verbatim>\<open>int\<close>.\<close>

definition issubclass :: "pyclass \<Rightarrow> pyclass \<Rightarrow> bool" where
  "issubclass c d = (c = d \<or> d = C_object \<or> (c = C_bool \<and> d = C_int))"

text \<open>
  What a parameter's \<^verbatim>\<open>annotation\<close> attribute can hold: \<^verbatim>\<open>Parameter.empty\<close>, the marker
  \<^verbatim>\<open>typing.Any\<close>, a class, or an object that is no class (an annotation left as a string,
  a subscripted generic).
\<close>

datatype annotation = Empty | AnyMarker | Class pyclass | NotAClass string

text \<open>
  \<^verbatim>\<open>isinstance(value, typ)\<close>. \<^verbatim>\<open>typing.Any\<close> refuses the check
  (\<^verbatim>\<open>_AnyMeta.__instancecheck__\<close> raises), and so does an object that is no class.
  \<^verbatim>\<open>Parameter.empty\<close> is a class without instances among the values.
\<close>

fun isinstance :: "pyval \<Rightarrow> annotation \<Rightarrow> pyexc + bool" where
  "isinstance v (Class c) = Inr (issubclass (type_of v) c)"
| "isinstance v AnyMarker = Inl (TypeError ''typing.Any cannot be used with isinstance()'')"
| "isinstance v (NotAClass _) =
     Inl (TypeError ''isinstance() arg 2 must be a type, a tuple of types, or a union'')"
| "isinstance v Empty = Inr False"

section \<open>Signatures and binding\<close>

datatype kind =
  POSITIONAL_ONLY | POSITIONAL_OR_KEYWORD | VAR_POSITIONAL | KEYWORD_ONLY | VAR_KEYWORD

record parameter =
  pname :: string
  pkind :: kind
  default :: "pyval option"
  annotation :: annotation

type_synonym signature = "parameter list"
type_synonym kwargs = "(string \<times> pyval) list"
type_synonym arguments = "(string \<times> pyval) list"

text \<open>\<^verbatim>\<open>arguments[name] = value\<close> on an insertion-ordered dictionary.\<close>

fun dict_set :: "(string \<times> pyval) list \<Rightarrow> string \<Rightarrow> pyval \<Rightarrow> (string \<times> pyval) list" where
  "dict_set [] k v = [(k, v)]"
| "dict_set ((k', v') # d) k v = (if k' = k then (k, v) # d else (k', v') # dict_set d k v)"

definition dict_pop :: "(string \<times> pyval) list \<Rightarrow> string \<Rightarrow> (string \<times> pyval) list" where
  "dict_pop d k = filter (\<lambda>(k', _). k' \<noteq> k) d"

definition dict_has :: "(string \<times> pyval) list \<Rightarrow> string \<Rightarrow> bool" where
  "dict_has d k = (map_of d k \<noteq> None)"

text \<open>
  \<^verbatim>\<open>Signature._bind\<close>, first loop: the positional arguments against the parameters in
  order. The result is the arguments bound so far and the parameters left for the
  keyword phase (\<^verbatim>\<open>parameters_ex\<close> followed by the rest of the iterator).
\<close>

fun bind_positional ::
  "signature \<Rightarrow> pyval list \<Rightarrow> kwargs \<Rightarrow> arguments \<Rightarrow> pyexc + (arguments \<times> signature)" where
  "bind_positional [] [] kw acc = Inr (acc, [])"
| "bind_positional (p # ps) [] kw acc =
     (if pkind p = VAR_POSITIONAL then Inr (acc, ps)
      else if dict_has kw (pname p) then
        (if pkind p = POSITIONAL_ONLY
         then Inl (TypeError (pname p @ '' parameter is positional only, but was passed as a keyword''))
         else Inr (acc, p # ps))
      else if pkind p = VAR_KEYWORD \<or> default p \<noteq> None then Inr (acc, p # ps)
      else Inl (TypeError (''missing a required argument: '' @ pname p)))"
| "bind_positional [] (a # as) kw acc = Inl (TypeError ''too many positional arguments'')"
| "bind_positional (p # ps) (a # as) kw acc =
     (if pkind p = VAR_KEYWORD \<or> pkind p = KEYWORD_ONLY
      then Inl (TypeError ''too many positional arguments'')
      else if pkind p = VAR_POSITIONAL then Inr (dict_set acc (pname p) (VTuple (a # as)), ps)
      else if dict_has kw (pname p) \<and> pkind p \<noteq> POSITIONAL_ONLY
      then Inl (TypeError (''multiple values for argument '' @ pname p))
      else bind_positional ps as kw (dict_set acc (pname p) a))"

text \<open>
  Second loop: the remaining parameters against the keyword arguments, which are popped
  as they are used. The third component remembers a \<^verbatim>\<open>**kwargs\<close> parameter.
\<close>

fun bind_keywords ::
  "signature \<Rightarrow> kwargs \<Rightarrow> arguments \<Rightarrow> parameter option
     \<Rightarrow> pyexc + (arguments \<times> kwargs \<times> parameter option)" where
  "bind_keywords [] kw acc kp = Inr (acc, kw, kp)"
| "bind_keywords (p # ps) kw acc kp =
     (if pkind p = VAR_KEYWORD then bind_keywords ps kw acc (Some p)
      else if pkind p = VAR_POSITIONAL then bind_keywords ps kw acc kp
      else (case map_of kw (pname p) of
              None \<Rightarrow>
                if default p = None
                then Inl (TypeError (''missing a required argument: '' @ pname p))
                else bind_keywords ps kw acc kp
            | Some v \<Rightarrow>
                if pkind p = POSITIONAL_ONLY
                then Inl (TypeError (pname p @ '' parameter is positional only, but was passed as a keyword''))
                else bind_keywords ps (dict_pop kw (pname p)) (dict_set acc (pname p) v) kp))"

definition bind :: "signature \<Rightarrow> pyval list \<Rightarrow> kwargs \<Rightarrow> pyexc + arguments" where
  "bind sg args kw =
     (case bind_positional sg args kw [] of
        Inl e \<Rightarrow> Inl e
      | Inr (acc, rest) \<Rightarrow>
          (case bind_keywords rest kw acc None of
             Inl e \<Rightarrow> Inl e
           | Inr (acc', kw', kp) \<Rightarrow>
               if kw' \<noteq> [] then
                 (case kp of
                    Some p \<Rightarrow> Inr (dict_set acc' (pname p) (VDict kw'))
                  | None \<Rightarrow>
                      Inl (TypeError (''got an unexpected keyword argument '' @ fst (hd kw'))))
               else Inr acc'))"

text \<open>\<^verbatim>\<open>BoundArguments.apply_defaults\<close>: one entry per parameter, in signature order.\<close>

fun apply_defaults :: "signature \<Rightarrow> arguments \<Rightarrow> arguments" where
  "apply_defaults [] bound = []"
| "apply_defaults (p # ps) bound =
     (case map_of bound (pname p) of
        Some v \<Rightarrow> (pname p, v) # apply_defaults ps bound
      | None \<Rightarrow>
          (case default p of
             Some d \<Rightarrow> (pname p, d) # apply_defaults ps bound
           | None \<Rightarrow>
               if pkind p = VAR_POSITIONAL then (pname p, VTuple []) # apply_defaults ps bound
               else if pkind p = VAR_KEYWORD then (pname p, VDict []) # apply_defaults ps bound
               else apply_defaults ps bound))"

text \<open>\<^verbatim>\<open>sig.parameters[param]\<close>.\<close>

definition lookup_param :: "signature \<Rightarrow> string \<Rightarrow> parameter option" where
  "lookup_param sg n = find (\<lambda>p. pname p = n) sg"

section \<open>The dispatcher\<close>

text \<open>
  The loop over \<^verbatim>\<open>bound.arguments.items()\<close> in \<^verbatim>\<open>_dispatch\<close>. The three tests keep the
  order of the source: no annotation, then \<^verbatim>\<open>isinstance\<close>, then \<^verbatim>\<open>typ is Any\<close>.
\<close>

fun check_types :: "signature \<Rightarrow> arguments \<Rightarrow> pyexc + unit" where
  "check_types sg [] = Inr ()"
| "check_types sg ((param, value) # rest) =
     (case lookup_param sg param of
        None \<Rightarrow> Inl (KeyError param)
      | Some p \<Rightarrow>
          (let typ = annotation p in
           if typ = Empty then check_types sg rest
           else (case isinstance value typ of
                   Inl e \<Rightarrow> Inl e
                 | Inr True \<Rightarrow> check_types sg rest
                 | Inr False \<Rightarrow>
                     if typ = AnyMarker then check_types sg rest
                     else Inl (TypeError []))))"

text \<open>The body of the \<^verbatim>\<open>try\<close> block for one candidate.\<close>

definition try_candidate :: "signature \<Rightarrow> pyval list \<Rightarrow> kwargs \<Rightarrow> pyexc + unit" where
  "try_candidate sg args kw =
     (case bind sg args kw of
        Inl e \<Rightarrow> Inl e
      | Inr bound \<Rightarrow> check_types sg (apply_defaults sg bound))"

text \<open>
  A candidate is a callable with a signature: its signature, and its body, which runs in
  a world \<open>'w\<close> that it may change and returns a value or raises. The attributes
  \<^verbatim>\<open>__name__\<close>, \<^verbatim>\<open>__module__\<close>, \<^verbatim>\<open>__qualname__\<close> and \<^verbatim>\<open>__code__.co_firstlineno\<close> are
  those of a function definition; another callable may lack them (a built-in function
  has no \<^verbatim>\<open>__code__\<close>), and reading a missing one raises \<^verbatim>\<open>AttributeError\<close>.
\<close>

record 'w candidate =
  fn_name :: "string option"
  fn_module :: "string option"
  fn_qualname :: "string option"
  co_firstlineno :: "nat option"
  sig :: signature
  body :: "pyval list \<Rightarrow> kwargs \<Rightarrow> 'w \<Rightarrow> (pyexc + pyval) \<times> 'w"

record 'w FunctionOverload =
  name :: string
  register :: bool
  fns :: "'w candidate list"

definition no_match_msg :: "string \<Rightarrow> string" where
  "no_match_msg nm =
     ''no matching overload for function '' @ [CHR 0x60] @ nm @ [CHR 0x60]
       @ '' and call signature''"

text \<open>
  The \<^verbatim>\<open>for i, fn in enumerate(self._fns)\<close> loop from index \<open>i\<close> on. A \<^verbatim>\<open>TypeError\<close> of
  the \<^verbatim>\<open>try\<close> block is caught and the loop continues; any other exception leaves the
  function; after the loop the \<^verbatim>\<open>TypeError\<close> naming the group is raised.
\<close>

fun dispatch_loop ::
  "string \<Rightarrow> nat \<Rightarrow> 'w candidate list \<Rightarrow> pyval list \<Rightarrow> kwargs \<Rightarrow> pyexc + nat" where
  "dispatch_loop nm i [] args kw = Inl (TypeError (no_match_msg nm))"
| "dispatch_loop nm i (fn # rest) args kw =
     (case try_candidate (sig fn) args kw of
        Inl (TypeError _) \<Rightarrow> dispatch_loop nm (Suc i) rest args kw
      | Inl e \<Rightarrow> Inl e
      | Inr _ \<Rightarrow> Inr i)"

definition dispatch :: "'w FunctionOverload \<Rightarrow> pyval list \<Rightarrow> kwargs \<Rightarrow> pyexc + nat" where
  "dispatch self args kw = dispatch_loop (name self) 0 (fns self) args kw"

text \<open>\<^verbatim>\<open>__call__\<close>: dispatch, then invoke the selected function with the same arguments.\<close>

definition matches :: "signature \<Rightarrow> pyval list \<Rightarrow> kwargs \<Rightarrow> bool" where
  "matches sg args kw = (try_candidate sg args kw = Inr ())"

definition call ::
  "'w FunctionOverload \<Rightarrow> pyval list \<Rightarrow> kwargs \<Rightarrow> 'w \<Rightarrow> (pyexc + pyval) \<times> 'w" where
  "call self args kw w =
     (case dispatch self args kw of
        Inl e \<Rightarrow> (Inl e, w)
      | Inr i \<Rightarrow>
          if i < length (fns self) then body (fns self ! i) args kw w
          else (Inl (IndexError ''list index out of range''), w))"

text \<open>
  The group is an object: \<^verbatim>\<open>__call__\<close> reads \<^verbatim>\<open>self._fns\<close> and derives each signature
  when it is called. \<open>self w\<close> is what the object holds in the world \<open>w\<close>, so that a body,
  which changes the world, can change what a later call finds.
\<close>

definition call_obj ::
  "('w \<Rightarrow> 'w FunctionOverload) \<Rightarrow> pyval list \<Rightarrow> kwargs \<Rightarrow> 'w \<Rightarrow> (pyexc + pyval) \<times> 'w" where
  "call_obj self args kw w = call (self w) args kw w"

section \<open>Registration\<close>

text \<open>
  Groups are objects: the state holds them by reference, so that a group found in a scope
  and the group that \<^verbatim>\<open>add\<close> mutates are one object. \<open>next_ref\<close> is the next unused
  reference; creating a group is the only thing that advances it.

  The ledger is the nested dictionary \<^verbatim>\<open>reg[module][qualname][lineno]\<close>. The module
  global \<^verbatim>\<open>_overload_registry\<close> is \<^verbatim>\<open>None\<close> or refers to the table of \<^verbatim>\<open>typing\<close> or to
  the library's own table.
\<close>

type_synonym ref = nat
type_synonym 'w registry = "string \<Rightarrow> string \<Rightarrow> nat \<Rightarrow> 'w candidate option"

datatype reg_ref = TypingRegistry | OwnRegistry

datatype local_value = Group ref | Plain pyval

type_synonym frame = "string \<Rightarrow> local_value option"

record 'w pystate =
  heap :: "ref \<Rightarrow> 'w FunctionOverload"
  next_ref :: ref
  overload_registry :: "reg_ref option"
  typing_has_registry :: bool
  registries :: "reg_ref \<Rightarrow> 'w registry"
  warnings :: "string list"
  frames :: "frame list"

definition get_overload_registry :: "'w pystate \<Rightarrow> reg_ref \<times> 'w pystate" where
  "get_overload_registry s =
     (case overload_registry s of
        Some r \<Rightarrow> (r, s)
      | None \<Rightarrow>
          if typing_has_registry s
          then (TypingRegistry, s\<lparr>overload_registry := Some TypingRegistry\<rparr>)
          else (OwnRegistry,
                s\<lparr>warnings := warnings s @
                     [''could not find _overload_registry in typing module;  using custom implementation''],
                  registries := (registries s)(OwnRegistry := (\<lambda>m q l. None)),
                  overload_registry := Some OwnRegistry\<rparr>))"

text \<open>\<^verbatim>\<open>FunctionOverload(name, register)\<close>: a fresh object with no candidates.\<close>

definition new_FunctionOverload :: "string \<Rightarrow> bool \<Rightarrow> 'w pystate \<Rightarrow> ref \<times> 'w pystate" where
  "new_FunctionOverload nm reg s =
     (next_ref s,
      s\<lparr>heap := (heap s)(next_ref s := \<lparr>name = nm, register = reg, fns = []\<rparr>),
        next_ref := Suc (next_ref s)\<rparr>)"

text \<open>\<^verbatim>\<open>reg[m][q][l] = fn\<close> on the nested dictionary.\<close>

definition registry_set ::
  "'w registry \<Rightarrow> string \<Rightarrow> string \<Rightarrow> nat \<Rightarrow> 'w candidate \<Rightarrow> 'w registry" where
  "registry_set reg m q l fn = reg(m := (reg m)(q := (reg m q)(l := Some fn)))"

text \<open>
  The body of \<^verbatim>\<open>if self.register:\<close>. The table is looked up first; then
  \<^verbatim>\<open>fn.__module__\<close>, \<^verbatim>\<open>fn.__qualname__\<close> and \<^verbatim>\<open>fn.__code__.co_firstlineno\<close> are read in
  this order, and the first one missing raises. An exception leaves the state as it is
  at that point.
\<close>

definition publish ::
  "'w candidate \<Rightarrow> 'w pystate \<Rightarrow> (pyexc \<times> 'w pystate) + (unit \<times> 'w pystate)" where
  "publish fn s =
     (case get_overload_registry s of
        (r, s2) \<Rightarrow>
          (case fn_module fn of
             None \<Rightarrow> Inl (AttributeError ''__module__'', s2)
           | Some m \<Rightarrow>
               (case fn_qualname fn of
                  None \<Rightarrow> Inl (AttributeError ''__qualname__'', s2)
                | Some q \<Rightarrow>
                    (case co_firstlineno fn of
                       None \<Rightarrow> Inl (AttributeError ''__code__'', s2)
                     | Some l \<Rightarrow>
                         Inr ((), s2\<lparr>registries :=
                           (registries s2)(r := registry_set (registries s2 r) m q l fn)\<rparr>)))))"

text \<open>\<^verbatim>\<open>add\<close>: the append comes first and stays when publishing raises.\<close>

definition add ::
  "ref \<Rightarrow> 'w candidate \<Rightarrow> 'w pystate \<Rightarrow> (pyexc \<times> 'w pystate) + (ref \<times> 'w pystate)" where
  "add self fn s =
     (let s1 = s\<lparr>heap := (heap s)(self := (heap s self)\<lparr>fns := fns (heap s self) @ [fn]\<rparr>)\<rparr>
      in if register (heap s1 self) then
           (case publish fn s1 of
              Inl (e, s2) \<Rightarrow> Inl (e, s2)
            | Inr (u, s2) \<Rightarrow> Inr (self, s2))
         else Inr (self, s1))"

text \<open>
  The argument of \<^verbatim>\<open>overload\<close> is a function or some other value; none of the values
  modelled is callable, and the strings among them are the \<open>VStr\<close>. Its result is the inner \<^verbatim>\<open>decorator\<close>, a closure over \<^verbatim>\<open>arg\<close>
  (\<^verbatim>\<open>None\<close> or a string), or the dispatcher that the inner decorator returned.
\<close>

datatype 'w pyarg = Fn "'w candidate" | Val pyval

datatype overload_result = Decorator "string option" | Dispatcher ref

fun callable :: "'w pyarg \<Rightarrow> bool" where
  "callable (Fn _) = True"
| "callable (Val _) = False"

fun is_None :: "'w pyarg \<Rightarrow> bool" where
  "is_None (Val VNone) = True"
| "is_None _ = False"

fun is_str :: "'w pyarg \<Rightarrow> bool" where
  "is_str (Val v) = issubclass (type_of v) C_str"
| "is_str (Fn _) = False"

text \<open>Bodies for concrete candidates: one returns a value, one raises.\<close>

definition returning :: "pyval \<Rightarrow> pyval list \<Rightarrow> kwargs \<Rightarrow> 'w \<Rightarrow> (pyexc + pyval) \<times> 'w" where
  "returning v args kw w = (Inr v, w)"

definition raising :: "pyexc \<Rightarrow> pyval list \<Rightarrow> kwargs \<Rightarrow> 'w \<Rightarrow> (pyexc + pyval) \<times> 'w" where
  "raising e args kw w = (Inl e, w)"

text \<open>A parameter \<^verbatim>\<open>n: t\<close> or \<^verbatim>\<open>n: t = d\<close> of the ordinary kind, and a function of one scope.\<close>

definition param :: "string \<Rightarrow> annotation \<Rightarrow> pyval option \<Rightarrow> parameter" where
  "param n t d = \<lparr>pname = n, pkind = POSITIONAL_OR_KEYWORD, default = d, annotation = t\<rparr>"

definition func ::
  "string \<Rightarrow> nat \<Rightarrow> signature \<Rightarrow> (pyval list \<Rightarrow> kwargs \<Rightarrow> 'w \<Rightarrow> (pyexc + pyval) \<times> 'w)
     \<Rightarrow> 'w candidate" where
  "func n line sg b =
     \<lparr>fn_name = Some n, fn_module = Some ''__main__'', fn_qualname = Some n,
      co_firstlineno = Some line, sig = sg, body = b\<rparr>"

text \<open>
  \<open>frames s\<close> is what \<^verbatim>\<open>inspect.stack()\<close> lists: the running frame first, then its
  callers. A call pushes the callee's frame and pops it on return; the callee's own
  local variables are not modelled.
\<close>

definition push_frame :: "'w pystate \<Rightarrow> 'w pystate" where
  "push_frame s = s\<lparr>frames := (\<lambda>n. None) # frames s\<rparr>"

definition pop_frame :: "'w pystate \<Rightarrow> 'w pystate" where
  "pop_frame s = s\<lparr>frames := tl (frames s)\<rparr>"

text \<open>
  The inner \<^verbatim>\<open>decorator(fn, scope_level)\<close>, running in its own frame.
  \<^verbatim>\<open>arg or fn.__name__\<close> takes the function's name when \<^verbatim>\<open>arg\<close> is \<^verbatim>\<open>None\<close> or empty.
  A binding found under the name is used as it is: calling \<^verbatim>\<open>add\<close> on a value that is
  no group raises \<^verbatim>\<open>AttributeError\<close>. When \<^verbatim>\<open>add\<close> raises, the name is not rebound.
\<close>

definition get_name :: "'w candidate \<Rightarrow> pyexc + string" where
  "get_name fn =
     (case fn_name fn of None \<Rightarrow> Inl (AttributeError ''__name__'') | Some n \<Rightarrow> Inr n)"

definition target_name :: "string option \<Rightarrow> 'w candidate \<Rightarrow> pyexc + string" where
  "target_name arg fn =
     (case arg of None \<Rightarrow> get_name fn | Some a \<Rightarrow> if a = [] then get_name fn else Inr a)"

definition set_local :: "nat \<Rightarrow> string \<Rightarrow> local_value \<Rightarrow> 'w pystate \<Rightarrow> 'w pystate" where
  "set_local lvl nm v s = s\<lparr>frames := (frames s)[lvl := (frames s ! lvl)(nm := Some v)]\<rparr>"

definition decorator ::
  "string option \<Rightarrow> 'w candidate \<Rightarrow> nat \<Rightarrow> 'w pystate
     \<Rightarrow> (pyexc \<times> 'w pystate) + (ref \<times> 'w pystate)" where
  "decorator arg fn scope_level s =
     (case target_name arg fn of
        Inl e \<Rightarrow> Inl (e, s)
      | Inr nm \<Rightarrow>
          if scope_level < length (frames s) then
            (case (frames s ! scope_level) nm of
               Some (Group r) \<Rightarrow>
                 (case add r fn s of
                    Inl (e, s') \<Rightarrow> Inl (e, s')
                  | Inr (r', s') \<Rightarrow> Inr (r, set_local scope_level nm (Group r) s'))
             | Some (Plain v) \<Rightarrow> Inl (AttributeError ''object has no attribute add'', s)
             | None \<Rightarrow>
                 (case new_FunctionOverload nm True s of
                    (r, s0) \<Rightarrow>
                      (case add r fn s0 of
                         Inl (e, s') \<Rightarrow> Inl (e, s')
                       | Inr (r', s') \<Rightarrow> Inr (r, set_local scope_level nm (Group r) s'))))
          else Inl (IndexError ''list index out of range'', s))"

text \<open>
  \<^verbatim>\<open>overload(arg)\<close>, running in its own frame. For a callable it calls the inner decorator
  with \<^verbatim>\<open>scope_level=2\<close>, from its own frame.
\<close>

definition overload ::
  "'w pyarg \<Rightarrow> 'w pystate \<Rightarrow> (pyexc \<times> 'w pystate) + (overload_result \<times> 'w pystate)" where
  "overload arg s =
     (case arg of
        Fn fn \<Rightarrow>
          (case decorator None fn 2 (push_frame s) of
             Inl (e, s') \<Rightarrow> Inl (e, pop_frame s')
           | Inr (r, s') \<Rightarrow> Inr (Dispatcher r, pop_frame s'))
      | Val v \<Rightarrow>
          (case v of
             VNone \<Rightarrow> Inr (Decorator None, s)
           | VStr a \<Rightarrow> Inr (Decorator (Some a), s)
           | _ \<Rightarrow> Inl (TypeError ''expected function name as argument'', s)))"

text \<open>
  A \<^verbatim>\<open>def\<close> statement creates a function object that has all four attributes.
\<close>

record 'w fundef =
  def_name :: string
  def_module :: string
  def_qualname :: string
  def_line :: nat
  def_sig :: signature
  def_body :: "pyval list \<Rightarrow> kwargs \<Rightarrow> 'w \<Rightarrow> (pyexc + pyval) \<times> 'w"

definition function_object :: "'w fundef \<Rightarrow> 'w candidate" where
  "function_object d =
     \<lparr>fn_name = Some (def_name d), fn_module = Some (def_module d),
      fn_qualname = Some (def_qualname d), co_firstlineno = Some (def_line d),
      sig = def_sig d, body = def_body d\<rparr>"

definition stmt ::
  "string \<Rightarrow> nat \<Rightarrow> signature \<Rightarrow> (pyval list \<Rightarrow> kwargs \<Rightarrow> 'w \<Rightarrow> (pyexc + pyval) \<times> 'w)
     \<Rightarrow> 'w fundef" where
  "stmt n line sg b =
     \<lparr>def_name = n, def_module = ''__main__'', def_qualname = n, def_line = line,
      def_sig = sg, def_body = b\<rparr>"

text \<open>
  The two ways a definition is decorated, executed in the scope on top of the stack:
  \<^verbatim>\<open>@overload\<close> above \<^verbatim>\<open>def f\<close> calls \<^verbatim>\<open>overload(f)\<close>; \<^verbatim>\<open>@overload(a)\<close> calls
  \<^verbatim>\<open>overload(a)\<close> and then the decorator it returns. Either way the host then binds
  the result to the function's own name in that scope.
\<close>

definition def_bare ::
  "'w fundef \<Rightarrow> 'w pystate \<Rightarrow> (pyexc \<times> 'w pystate) + (ref \<times> 'w pystate)" where
  "def_bare d s =
     (case overload (Fn (function_object d)) (push_frame s) of
        Inl (e, s') \<Rightarrow> Inl (e, pop_frame s')
      | Inr (Dispatcher r, s') \<Rightarrow> Inr (r, set_local 0 (def_name d) (Group r) (pop_frame s'))
      | Inr (Decorator a, s') \<Rightarrow> Inl (TypeError ''not a dispatcher'', pop_frame s'))"

definition def_named ::
  "pyval \<Rightarrow> 'w fundef \<Rightarrow> 'w pystate \<Rightarrow> (pyexc \<times> 'w pystate) + (ref \<times> 'w pystate)" where
  "def_named a d s =
     (case overload (Val a) (push_frame s) of
        Inl (e, s') \<Rightarrow> Inl (e, pop_frame s')
      | Inr (Dispatcher r, s') \<Rightarrow> Inl (TypeError ''not a decorator'', pop_frame s')
      | Inr (Decorator arg, s') \<Rightarrow>
          (case decorator arg (function_object d) 1 (push_frame (pop_frame s')) of
             Inl (e, s'') \<Rightarrow> Inl (e, pop_frame s'')
           | Inr (r, s'') \<Rightarrow> Inr (r, set_local 0 (def_name d) (Group r) (pop_frame s''))))"

text \<open>
  Two groups for concrete calls: \<^verbatim>\<open>greet(name: str)\<close> before
  \<^verbatim>\<open>greet(name: str, loud: bool = False)\<close>, and \<^verbatim>\<open>area(w: int, h: int)\<close> before
  \<^verbatim>\<open>area(r: float)\<close>.
\<close>

definition greet1 :: "unit candidate" where
  "greet1 = func ''greet'' 1 [param ''name'' (Class C_str) None] (returning (VInt 1))"

definition greet2 :: "unit candidate" where
  "greet2 = func ''greet'' 5
     [param ''name'' (Class C_str) None, param ''loud'' (Class C_bool) (Some (VBool False))]
     (returning (VInt 2))"

definition greet_group :: "unit FunctionOverload" where
  "greet_group = \<lparr>name = ''greet'', register = True, fns = [greet1, greet2]\<rparr>"

definition area1 :: "unit candidate" where
  "area1 = func ''area'' 1
     [param ''w'' (Class C_int) None, param ''h'' (Class C_int) None] (returning (VInt 12))"

definition area2 :: "unit candidate" where
  "area2 = func ''area'' 5 [param ''r'' (Class C_float) None] (returning (VFloat 0))"

definition area_group :: "unit FunctionOverload" where
  "area_group = \<lparr>name = ''area'', register = True, fns = [area1, area2]\<rparr>"

text \<open>A state with one module scope, no group and the ledger not yet looked up.\<close>

definition initial_state :: "unit pystate" where
  "initial_state =
     \<lparr>heap = (\<lambda>r. \<lparr>name = [], register = False, fns = []\<rparr>), next_ref = 0,
      overload_registry = None, typing_has_registry = True,
      registries = (\<lambda>r m q l. None), warnings = [], frames = [\<lambda>n. None]\<rparr>"

text \<open>
  The two \<^verbatim>\<open>def greet\<close> statements, and the state after \<^verbatim>\<open>@overload\<close> above the first
  of them in the initial state.
\<close>

definition greet1_stmt :: "unit fundef" where
  "greet1_stmt = stmt ''greet'' 1 [param ''name'' (Class C_str) None] (returning (VInt 1))"

definition greet2_stmt :: "unit fundef" where
  "greet2_stmt = stmt ''greet'' 5
     [param ''name'' (Class C_str) None, param ''loud'' (Class C_bool) (Some (VBool False))]
     (returning (VInt 2))"

definition state1 :: "unit pystate" where
  "state1 =
     (case def_bare greet1_stmt initial_state of Inr (r, s) \<Rightarrow> s | Inl (e, s) \<Rightarrow> s)"

text \<open>
  The built-in \<^verbatim>\<open>len(obj, /)\<close>: it has a signature, a name, a module and a qualified
  name, and no \<^verbatim>\<open>__code__\<close>.
\<close>

definition builtin_len :: "unit candidate" where
  "builtin_len =
     \<lparr>fn_name = Some ''len'', fn_module = Some ''builtins'', fn_qualname = Some ''len'',
      co_firstlineno = None,
      sig = [\<lparr>pname = ''obj'', pkind = POSITIONAL_ONLY, default = None, annotation = Empty\<rparr>],
      body = returning (VInt 0)\<rparr>"

text \<open>
  A group whose candidate counts its calls in the world, and whose \<^verbatim>\<open>register\<close> flag
  differs from world to world; and a group that the first call of its candidate empties.
\<close>

definition tick :: "pyval list \<Rightarrow> kwargs \<Rightarrow> nat \<Rightarrow> (pyexc + pyval) \<times> nat" where
  "tick args kw w = (Inr (VInt 7), Suc w)"

definition counted :: "nat candidate" where
  "counted = func ''counted'' 1 [param ''x'' (Class C_int) None] tick"

definition counted_obj :: "nat \<Rightarrow> nat FunctionOverload" where
  "counted_obj w = \<lparr>name = ''counted'', register = (w = 0), fns = [counted]\<rparr>"

definition clearing :: "pyval list \<Rightarrow> kwargs \<Rightarrow> bool \<Rightarrow> (pyexc + pyval) \<times> bool" where
  "clearing args kw w = (Inr VNone, True)"

definition cleared_obj :: "bool \<Rightarrow> bool FunctionOverload" where
  "cleared_obj w =
     \<lparr>name = ''f'', register = True, fns = (if w then [] else [func ''f'' 1 [] clearing])\<rparr>"

text \<open>
  \<^verbatim>\<open>f(x: Any)\<close> alone in a group; a function without parameters that raises the very
  \<^verbatim>\<open>TypeError\<close> of a failed dispatch; and a group without candidates.
\<close>

definition any1 :: "unit candidate" where
  "any1 = func ''f'' 1 [param ''x'' AnyMarker None] (returning VNone)"

definition any_group :: "unit FunctionOverload" where
  "any_group = \<lparr>name = ''f'', register = True, fns = [any1]\<rparr>"

definition raiser :: "unit candidate" where
  "raiser = func ''f'' 1 [] (raising (TypeError (no_match_msg ''f'')))"

definition raiser_group :: "unit FunctionOverload" where
  "raiser_group = \<lparr>name = ''f'', register = True, fns = [raiser]\<rparr>"

definition empty_group :: "unit FunctionOverload" where
  "empty_group = \<lparr>name = ''f'', register = True, fns = []\<rparr>"

text \<open>The same group with every annotation replaced, to compare calls across annotations.\<close>

definition reannotate :: "(parameter \<Rightarrow> annotation) \<Rightarrow> signature \<Rightarrow> signature" where
  "reannotate f sg = map (\<lambda>p. p\<lparr>annotation := f p\<rparr>) sg"

definition reannotate_group ::
  "(parameter \<Rightarrow> annotation) \<Rightarrow> 'w FunctionOverload \<Rightarrow> 'w FunctionOverload" where
  "reannotate_group f g = g\<lparr>fns := map (\<lambda>fn. fn\<lparr>sig := reannotate f (sig fn)\<rparr>) (fns g)\<rparr>"

section \<open>Properties of the dispatcher\<close>

lemma bind_positional_TypeError:
  "bind_positional sg args kw acc = Inl e \<Longrightarrow> \<exists>m. e = TypeError m"
  by (induction sg args kw acc rule: bind_positional.induct) (auto split: if_splits)

lemma bind_keywords_TypeError:
  "bind_keywords sg kw acc kp = Inl e \<Longrightarrow> \<exists>m. e = TypeError m"
  by (induction sg kw acc kp rule: bind_keywords.induct) (auto split: if_splits option.splits)

lemma bind_TypeError: "bind sg args kw = Inl e \<Longrightarrow> \<exists>m. e = TypeError m"
  unfolding bind_def
  by (auto split: sum.splits prod.splits if_splits option.splits
      dest: bind_positional_TypeError bind_keywords_TypeError)

lemma lookup_param_Some: "n \<in> pname ` set sg \<Longrightarrow> \<exists>p. lookup_param sg n = Some p"
  unfolding lookup_param_def by (induction sg) auto

lemma isinstance_TypeError: "isinstance v t = Inl e \<Longrightarrow> \<exists>m. e = TypeError m"
  by (cases t) auto

lemma check_types_TypeError:
  "fst ` set xs \<subseteq> pname ` set sg \<Longrightarrow> check_types sg xs = Inl e \<Longrightarrow> \<exists>m. e = TypeError m"
proof (induction xs)
  case Nil
  then show ?case by simp
next
  case (Cons x xs)
  obtain n v where x: "x = (n, v)" by (cases x)
  with Cons.prems(1) obtain p where p: "lookup_param sg n = Some p"
    using lookup_param_Some[of n sg] by auto
  from Cons show ?case using x p
    by (auto simp: Let_def split: if_splits sum.splits bool.splits dest: isinstance_TypeError)
qed

lemma apply_defaults_names: "fst ` set (apply_defaults sg b) \<subseteq> pname ` set sg"
  by (induction sg) (auto split: option.splits if_splits)

lemma try_candidate_TypeError: "try_candidate sg args kw = Inl e \<Longrightarrow> \<exists>m. e = TypeError m"
  unfolding try_candidate_def
  by (auto split: sum.splits dest: bind_TypeError check_types_TypeError[OF apply_defaults_names])

lemma try_candidate_cases:
  "matches sg args kw \<or> (\<exists>m. try_candidate sg args kw = Inl (TypeError m))"
  unfolding matches_def
  by (cases "try_candidate sg args kw") (auto dest: try_candidate_TypeError)

lemma dispatch_loop_step:
  "dispatch_loop nm i (fn # rest) args kw =
     (if matches (sig fn) args kw then Inr i else dispatch_loop nm (Suc i) rest args kw)"
  using try_candidate_cases[of "sig fn" args kw]
  by (auto simp: matches_def)

lemma dispatch_loop_none:
  "\<forall>fn \<in> set fs. \<not> matches (sig fn) args kw \<Longrightarrow>
   dispatch_loop nm i fs args kw = Inl (TypeError (no_match_msg nm))"
  by (induction fs arbitrary: i) (simp_all add: dispatch_loop_step del: dispatch_loop.simps(2))

lemma dispatch_loop_Inr:
  "dispatch_loop nm i fs args kw = Inr r \<Longrightarrow>
   \<exists>k < length fs. r = i + k \<and> matches (sig (fs ! k)) args kw
      \<and> (\<forall>j < k. \<not> matches (sig (fs ! j)) args kw)"
proof (induction fs arbitrary: i)
  case Nil
  then show ?case by simp
next
  case (Cons f fs)
  show ?case
  proof (cases "matches (sig f) args kw")
    case True
    with Cons.prems have "r = i" by (simp add: dispatch_loop_step del: dispatch_loop.simps(2))
    with True show ?thesis by (intro exI[of _ 0]) simp
  next
    case False
    with Cons.prems have "dispatch_loop nm (Suc i) fs args kw = Inr r"
      by (simp add: dispatch_loop_step del: dispatch_loop.simps(2))
    from Cons.IH[OF this] obtain k where k: "k < length fs" "r = Suc i + k"
      "matches (sig (fs ! k)) args kw" "\<forall>j < k. \<not> matches (sig (fs ! j)) args kw" by blast
    show ?thesis
    proof (intro exI[of _ "Suc k"] conjI allI impI)
      fix j assume "j < Suc k"
      then show "\<not> matches (sig ((f # fs) ! j)) args kw"
        using False k(4) by (cases j) auto
    qed (use k in auto)
  qed
qed

lemma dispatch_loop_Inl:
  "dispatch_loop nm i fs args kw = Inl e \<Longrightarrow>
   e = TypeError (no_match_msg nm) \<and> (\<forall>fn \<in> set fs. \<not> matches (sig fn) args kw)"
  by (induction fs arbitrary: i)
     (auto simp: dispatch_loop_step simp del: dispatch_loop.simps(2) split: if_splits)

lemma matches_iff:
  "matches sg args kw \<longleftrightarrow>
     (\<exists>b. bind sg args kw = Inr b \<and> check_types sg (apply_defaults sg b) = Inr ())"
  unfolding matches_def try_candidate_def by (auto split: sum.splits)

lemma dispatch_loop_sig:
  "map sig fs' = map sig fs \<Longrightarrow>
   dispatch_loop nm i fs' args kw = dispatch_loop nm i fs args kw"
proof (induction fs arbitrary: fs' i)
  case Nil
  then show ?case by simp
next
  case (Cons f fs)
  then obtain f' fs'' where "fs' = f' # fs''" "sig f' = sig f" "map sig fs'' = map sig fs"
    by (cases fs') auto
  with Cons.IH show ?case by (simp add: dispatch_loop_step del: dispatch_loop.simps(2))
qed

lemma check_types_reject:
  "(n, v) \<in> set xs \<Longrightarrow> lookup_param sg n = Some p \<Longrightarrow> annotation p = Class c \<Longrightarrow>
   \<not> issubclass (type_of v) c \<Longrightarrow> check_types sg xs \<noteq> Inr ()"
  by (induction xs) (auto simp: Let_def split: option.splits sum.splits bool.splits if_splits)

lemma check_types_all_Empty:
  "\<forall>q \<in> set sg. annotation q = Empty \<Longrightarrow> fst ` set xs \<subseteq> pname ` set sg \<Longrightarrow>
   check_types sg xs = Inr ()"
proof (induction xs)
  case Nil
  then show ?case by simp
next
  case (Cons x xs)
  obtain n v where x: "x = (n, v)" by (cases x)
  with Cons.prems(2) obtain p where p: "lookup_param sg n = Some p"
    using lookup_param_Some[of n sg] by auto
  then have "p \<in> set sg" unfolding lookup_param_def by (auto simp: find_Some_iff)
  with Cons x p show ?case by simp
qed

text \<open>
  C1. Candidates are tried in registration order and the first one that binds and
  passes the type checks is selected and invoked: whenever candidate \<open>k\<close> matches, the
  selected index \<open>i\<close> is the least matching one, so \<open>i \<le> k\<close> and a later candidate such as
  \<open>k + 1\<close> is never preferred to \<open>k\<close>; and when no candidate before \<open>k\<close> matches, it is
  \<open>k\<close> that is invoked, whatever the candidates after it would do.
\<close>

theorem dispatch_first_match:
  assumes "k < length (fns g)" and "matches (sig (fns g ! k)) args kw"
  shows "(\<exists>i \<le> k. dispatch g args kw = Inr i \<and> matches (sig (fns g ! i)) args kw
            \<and> (\<forall>j < i. \<not> matches (sig (fns g ! j)) args kw)
            \<and> call g args kw w = body (fns g ! i) args kw w)
         \<and> ((\<forall>j < k. \<not> matches (sig (fns g ! j)) args kw) \<longrightarrow>
              dispatch g args kw = Inr k \<and> call g args kw w = body (fns g ! k) args kw w)"
proof -
  from assms have "\<exists>fn \<in> set (fns g). matches (sig fn) args kw"
    using nth_mem by blast
  then obtain i where d: "dispatch g args kw = Inr i"
    unfolding dispatch_def
    by (cases "dispatch_loop (name g) 0 (fns g) args kw") (auto dest: dispatch_loop_Inl)
  from dispatch_loop_Inr[OF d[unfolded dispatch_def]]
  have i: "i < length (fns g)" "matches (sig (fns g ! i)) args kw"
    "\<forall>j < i. \<not> matches (sig (fns g ! j)) args kw" by auto
  from i(3) assms(2) have "i \<le> k" by (meson not_le)
  moreover have c: "call g args kw w = body (fns g ! i) args kw w"
    using d i(1) by (simp add: call_def)
  moreover have "i = k" if "\<forall>j < k. \<not> matches (sig (fns g ! j)) args kw"
    using that i(2) \<open>i \<le> k\<close> by (meson le_neq_implies_less)
  ultimately show ?thesis using d i c by blast
qed

lemmas eval_defs =
  matches_def try_candidate_def bind_def func_def param_def dict_has_def dict_pop_def
  lookup_param_def issubclass_def returning_def raising_def dispatch_def call_def
  no_match_msg_def

theorem dispatch_first_match_witness:
  "0 < length (fns greet_group) \<and> matches (sig (fns greet_group ! 0)) [VStr ''x''] []
   \<and> matches (sig (fns greet_group ! 1)) [VStr ''x''] []
   \<and> dispatch greet_group [VStr ''x''] [] = Inr 0
   \<and> call greet_group [VStr ''x''] [] () = (Inr (VInt 1), ())"
proof -
  have k: "0 < length (fns greet_group)" by (simp add: greet_group_def)
  have m0: "matches (sig (fns greet_group ! 0)) [VStr ''x''] []"
    by (simp add: greet_group_def greet1_def eval_defs)
  have m1: "matches (sig (fns greet_group ! 1)) [VStr ''x''] []"
    by (simp add: greet_group_def greet2_def eval_defs)
  from dispatch_first_match[OF k m0, of "()"]
  have "dispatch greet_group [VStr ''x''] [] = Inr 0
        \<and> call greet_group [VStr ''x''] [] () = body (fns greet_group ! 0) [VStr ''x''] [] ()"
    by simp
  then show ?thesis using k m0 m1
    by (simp add: greet_group_def greet1_def func_def returning_def)
qed

lemma bind_positional_reannotate:
  "bind_positional (reannotate f sg) args kw acc =
     (case bind_positional sg args kw acc of
        Inl e \<Rightarrow> Inl e | Inr (a, r) \<Rightarrow> Inr (a, reannotate f r))"
  by (induction sg args kw acc rule: bind_positional.induct) (simp_all add: reannotate_def)

lemma bind_keywords_reannotate:
  "bind_keywords (reannotate f sg) kw acc (map_option (\<lambda>p. p\<lparr>annotation := f p\<rparr>) kp) =
     (case bind_keywords sg kw acc kp of
        Inl e \<Rightarrow> Inl e
      | Inr (a, k, kp') \<Rightarrow> Inr (a, k, map_option (\<lambda>p. p\<lparr>annotation := f p\<rparr>) kp'))"
proof (induction sg kw acc kp rule: bind_keywords.induct)
  case (1 kw acc kp)
  then show ?case by (simp add: reannotate_def)
next
  case (2 p ps kw acc kp)
  have some: "bind_keywords (reannotate f ps) kw acc (Some (p\<lparr>annotation := f p\<rparr>)) =
     (case bind_keywords ps kw acc (Some p) of
        Inl e \<Rightarrow> Inl e
      | Inr (a, k, kp') \<Rightarrow> Inr (a, k, map_option (\<lambda>p. p\<lparr>annotation := f p\<rparr>) kp'))"
    if "pkind p = VAR_KEYWORD"
    using "2.IH"(1)[OF that] by simp
  show ?case
  proof (cases "pkind p = VAR_KEYWORD")
    case True
    with some show ?thesis by (simp add: reannotate_def)
  next
    case False
    with 2 show ?thesis
      by (auto simp: reannotate_def split: option.splits)
  qed
qed

lemma bind_reannotate: "bind (reannotate f sg) args kw = bind sg args kw"
proof -
  have k: "bind_keywords (reannotate f r) kw a None =
     (case bind_keywords r kw a None of
        Inl e \<Rightarrow> Inl e
      | Inr (a, k, kp') \<Rightarrow> Inr (a, k, map_option (\<lambda>p. p\<lparr>annotation := f p\<rparr>) kp'))" for r a
    using bind_keywords_reannotate[of f r kw a None] by simp
  show ?thesis
    unfolding bind_def bind_positional_reannotate
    by (auto simp: k split: sum.splits prod.splits option.splits)
qed

lemma not_binding_not_matches: "\<forall>b. bind sg args kw \<noteq> Inr b \<Longrightarrow> \<not> matches sg args kw"
  by (simp add: matches_iff)

lemma call_no_match:
  "\<forall>fn \<in> set (fns g). \<not> matches (sig fn) args kw \<Longrightarrow>
   call g args kw w = (Inl (TypeError (no_match_msg (name g))), w)"
  by (simp add: call_def dispatch_def dispatch_loop_none)

text \<open>
  C3. When no candidate both binds and passes the type checks, the call raises the
  \<^verbatim>\<open>TypeError\<close> whose message holds the group's name, and the world is left as it was: no
  body has run. When no candidate even binds, this holds whatever the annotations are.
\<close>

theorem call_no_match_raises:
  "((\<forall>fn \<in> set (fns g). \<not> matches (sig fn) args kw) \<longrightarrow>
      call g args kw w =
        (Inl (TypeError (''no matching overload for function '' @ [CHR 0x60] @ name g
                           @ [CHR 0x60] @ '' and call signature'')), w))
   \<and> ((\<forall>fn \<in> set (fns g). \<forall>b. bind (sig fn) args kw \<noteq> Inr b) \<longrightarrow>
      call (reannotate_group f g) args kw w =
        (Inl (TypeError (''no matching overload for function '' @ [CHR 0x60] @ name g
                           @ [CHR 0x60] @ '' and call signature'')), w))"
proof (intro conjI impI)
  assume "\<forall>fn \<in> set (fns g). \<not> matches (sig fn) args kw"
  from call_no_match[OF this] show "call g args kw w =
        (Inl (TypeError (''no matching overload for function '' @ [CHR 0x60] @ name g
                           @ [CHR 0x60] @ '' and call signature'')), w)"
    by (simp add: no_match_msg_def)
next
  assume a: "\<forall>fn \<in> set (fns g). \<forall>b. bind (sig fn) args kw \<noteq> Inr b"
  have "\<forall>fn \<in> set (fns (reannotate_group f g)). \<not> matches (sig fn) args kw"
    using a by (auto simp: reannotate_group_def bind_reannotate intro!: not_binding_not_matches)
  from call_no_match[OF this] show "call (reannotate_group f g) args kw w =
        (Inl (TypeError (''no matching overload for function '' @ [CHR 0x60] @ name g
                           @ [CHR 0x60] @ '' and call signature'')), w)"
    by (simp add: no_match_msg_def reannotate_group_def)
qed

theorem call_no_match_raises_witness:
  "\<not> matches (sig area1) [VStr ''a''] [] \<and> \<not> matches (sig area2) [VStr ''a''] []
   \<and> call area_group [VStr ''a''] [] () =
        (Inl (TypeError ''no matching overload for function `area` and call signature''), ())
   \<and> bind (sig greet1) [VInt 1, VInt 2, VInt 3] [] = Inl (TypeError ''too many positional arguments'')
   \<and> bind (sig greet2) [VInt 1, VInt 2, VInt 3] [] = Inl (TypeError ''too many positional arguments'')
   \<and> call (reannotate_group (\<lambda>p. Empty) greet_group) [VInt 1, VInt 2, VInt 3] [] () =
        (Inl (TypeError ''no matching overload for function `greet` and call signature''), ())"
proof -
  have a1: "\<not> matches (sig area1) [VStr ''a''] []"
    by (simp add: area1_def eval_defs)
  have a2: "\<not> matches (sig area2) [VStr ''a''] []"
    by (simp add: area2_def eval_defs)
  have b1: "bind (sig greet1) [VInt 1, VInt 2, VInt 3] [] = Inl (TypeError ''too many positional arguments'')"
    by (simp add: greet1_def eval_defs)
  have b2: "bind (sig greet2) [VInt 1, VInt 2, VInt 3] [] = Inl (TypeError ''too many positional arguments'')"
    by (simp add: greet2_def eval_defs)
  from call_no_match_raises[of area_group "[VStr ''a'']" "[]" "()"] a1 a2
  have 1: "call area_group [VStr ''a''] [] () =
        (Inl (TypeError ''no matching overload for function `area` and call signature''), ())"
    by (simp add: area_group_def)
  from call_no_match_raises[of greet_group "[VInt 1, VInt 2, VInt 3]" "[]" "()" "\<lambda>p. Empty"] b1 b2
  have 2: "call (reannotate_group (\<lambda>p. Empty) greet_group) [VInt 1, VInt 2, VInt 3] [] () =
        (Inl (TypeError ''no matching overload for function `greet` and call signature''), ())"
    by (simp add: greet_group_def)
  from a1 a2 b1 b2 1 2 show ?thesis by blast
qed

text \<open>
  C2. A parameter annotated \<^verbatim>\<open>typing.Any\<close> is meant to accept every value, and the source has
  a branch \<^verbatim>\<open>typ is Any\<close> for it. The branch comes after \<^verbatim>\<open>isinstance(value, typ)\<close>,
  which raises \<^verbatim>\<open>TypeError\<close> for \<^verbatim>\<open>typing.Any\<close>; the \<^verbatim>\<open>except\<close> clause takes it for a
  mismatch. So \<^verbatim>\<open>f(x: Any)\<close> called with \<^verbatim>\<open>1\<close> is skipped and the call fails.
\<close>

theorem any_annotation_rejected:
  "try_candidate (sig any1) [VInt 1] [] =
     Inl (TypeError ''typing.Any cannot be used with isinstance()'')
   \<and> call any_group [VInt 1] [] () =
     (Inl (TypeError ''no matching overload for function `f` and call signature''), ())"
  by (simp add: any_group_def any1_def eval_defs)

text \<open>
  C4, as stated, fails: the error of an exhausted dispatch is the host's \<^verbatim>\<open>TypeError\<close>, and
  a matched candidate that raises a \<^verbatim>\<open>TypeError\<close> with the same message gives the caller
  the very same outcome.
\<close>

theorem dispatch_error_not_distinct:
  "dispatch raiser_group [] [] = Inr 0
   \<and> dispatch empty_group [] [] =
       Inl (TypeError ''no matching overload for function `f` and call signature'')
   \<and> call raiser_group [] [] () = call empty_group [] [] ()"
  by (simp add: raiser_group_def raiser_def empty_group_def eval_defs)

text \<open>
  C4, amended. The dispatcher itself surfaces one error only, the \<^verbatim>\<open>TypeError\<close> naming the
  group, and only when every candidate has been rejected; and when a candidate is
  selected, the outcome of the call is the outcome of that candidate's body, a raised
  exception included, unchanged.
\<close>

theorem dispatch_errors_and_propagation:
  "(dispatch g args kw = Inl e \<longrightarrow>
      e = TypeError (no_match_msg (name g)) \<and> (\<forall>fn \<in> set (fns g). \<not> matches (sig fn) args kw))
   \<and> (dispatch g args kw = Inr i \<longrightarrow>
      i < length (fns g) \<and> matches (sig (fns g ! i)) args kw
      \<and> call g args kw w = body (fns g ! i) args kw w)"
proof (intro conjI impI)
  assume "dispatch g args kw = Inl e"
  from dispatch_loop_Inl[OF this[unfolded dispatch_def]]
  show "e = TypeError (no_match_msg (name g))"
    and "\<forall>fn \<in> set (fns g). \<not> matches (sig fn) args kw" by simp_all
next
  assume d: "dispatch g args kw = Inr i"
  from dispatch_loop_Inr[OF d[unfolded dispatch_def]]
  show "i < length (fns g)" and "matches (sig (fns g ! i)) args kw" by simp_all
  then show "call g args kw w = body (fns g ! i) args kw w"
    using d by (simp add: call_def)
qed

theorem dispatch_errors_and_propagation_witness:
  "dispatch raiser_group [] [] = Inr 0
   \<and> call raiser_group [] [] () =
       (Inl (TypeError ''no matching overload for function `f` and call signature''), ())
   \<and> dispatch area_group [VStr ''a''] [] = Inl (TypeError (no_match_msg ''area''))
   \<and> \<not> matches (sig area1) [VStr ''a''] [] \<and> \<not> matches (sig area2) [VStr ''a''] []"
proof -
  have d0: "dispatch raiser_group [] [] = Inr 0"
    by (simp add: raiser_group_def raiser_def eval_defs)
  have d1: "dispatch area_group [VStr ''a''] [] = Inl (TypeError (no_match_msg ''area''))"
    by (simp add: area_group_def area1_def area2_def eval_defs)
  from dispatch_errors_and_propagation[of raiser_group "[]" "[]" _ 0 "()"] d0
  have 1: "call raiser_group [] [] () = body (fns raiser_group ! 0) [] [] ()" by simp
  from dispatch_errors_and_propagation[of area_group "[VStr ''a'']" "[]"
      "TypeError (no_match_msg ''area'')"] d1
  have 2: "\<forall>fn \<in> set (fns area_group). \<not> matches (sig fn) [VStr ''a''] []" by simp
  from 1 have "call raiser_group [] [] () =
       (Inl (TypeError ''no matching overload for function `f` and call signature''), ())"
    by (simp add: raiser_group_def raiser_def func_def raising_def no_match_msg_def)
  with d0 d1 2 show ?thesis by (simp add: area_group_def)
qed

text \<open>
  C5. For a bound parameter whose annotation is a class, a candidate that matches has a
  value that passes the instance check; with any other value the \<^verbatim>\<open>try\<close> block ends in a
  caught \<^verbatim>\<open>TypeError\<close>, the loop goes on with the next candidate, and a group whose last
  candidate it was fails with the dispatch error.
\<close>

theorem concrete_type_checked:
  assumes "bind (sig fn) args kw = Inr b"
    and "(n, v) \<in> set (apply_defaults (sig fn) b)"
    and "lookup_param (sig fn) n = Some p"
    and "annotation p = Class c"
  shows "(matches (sig fn) args kw \<longrightarrow> isinstance v (Class c) = Inr True)
     \<and> (isinstance v (Class c) \<noteq> Inr True \<longrightarrow>
          (\<exists>m. try_candidate (sig fn) args kw = Inl (TypeError m))
          \<and> dispatch_loop nm i (fn # rest) args kw = dispatch_loop nm (Suc i) rest args kw
          \<and> dispatch_loop nm i [fn] args kw = Inl (TypeError (no_match_msg nm)))"
proof -
  have rej: "\<not> matches (sig fn) args kw" if "\<not> issubclass (type_of v) c"
    using check_types_reject[OF assms(2,3,4) that] assms(1)
    by (simp add: matches_def try_candidate_def)
  then have "\<exists>m. try_candidate (sig fn) args kw = Inl (TypeError m)"
    if "\<not> issubclass (type_of v) c"
    using that try_candidate_cases[of "sig fn" args kw] by blast
  with rej show ?thesis
    by (auto simp: dispatch_loop_step simp del: dispatch_loop.simps(2))
qed

theorem concrete_type_checked_witness:
  "bind (sig area2) [VStr ''a''] [] = Inr [(''r'', VStr ''a'')]
   \<and> apply_defaults (sig area2) [(''r'', VStr ''a'')] = [(''r'', VStr ''a'')]
   \<and> lookup_param (sig area2) ''r'' = Some (param ''r'' (Class C_float) None)
   \<and> isinstance (VStr ''a'') (Class C_float) = Inr False
   \<and> dispatch_loop ''area'' 1 [area2] [VStr ''a''] [] = Inl (TypeError (no_match_msg ''area''))
   \<and> matches (sig area2) [VFloat 5] []
   \<and> isinstance (VFloat 5) (Class C_float) = Inr True"
proof -
  have b: "bind (sig area2) [VStr ''a''] [] = Inr [(''r'', VStr ''a'')]"
    by (simp add: area2_def eval_defs)
  have m: "(''r'', VStr ''a'') \<in> set (apply_defaults (sig area2) [(''r'', VStr ''a'')])"
    by (simp add: area2_def eval_defs)
  have l: "lookup_param (sig area2) ''r'' = Some (param ''r'' (Class C_float) None)"
    by (simp add: area2_def eval_defs)
  have a: "annotation (param ''r'' (Class C_float) None) = Class C_float"
    by (simp add: param_def)
  have b': "bind (sig area2) [VFloat 5] [] = Inr [(''r'', VFloat 5)]"
    by (simp add: area2_def eval_defs)
  have m': "(''r'', VFloat 5) \<in> set (apply_defaults (sig area2) [(''r'', VFloat 5)])"
    by (simp add: area2_def eval_defs)
  have ok: "matches (sig area2) [VFloat 5] []"
    by (simp add: area2_def eval_defs)
  from concrete_type_checked[OF b m l a, of "''area''" 1 "[]"]
  have 1: "dispatch_loop ''area'' 1 [area2] [VStr ''a''] [] = Inl (TypeError (no_match_msg ''area''))"
    by (simp add: issubclass_def)
  from concrete_type_checked[OF b' m' l a] ok
  have 2: "isinstance (VFloat 5) (Class C_float) = Inr True" by blast
  have "apply_defaults (sig area2) [(''r'', VStr ''a'')] = [(''r'', VStr ''a'')]"
    by (simp add: area2_def eval_defs)
  moreover have "isinstance (VStr ''a'') (Class C_float) = Inr False"
    by (simp add: issubclass_def)
  ultimately show ?thesis using b l ok 1 2 by blast
qed

text \<open>
  C6. A bound parameter without annotation is accepted whatever its value: the check goes
  on with the remaining parameters; and a candidate none of whose parameters is
  annotated matches every call that binds.
\<close>

theorem no_annotation_accepted:
  "(lookup_param sg n = Some p \<and> annotation p = Empty \<longrightarrow>
      check_types sg ((n, v) # rest) = check_types sg rest)
   \<and> ((\<forall>q \<in> set sg. annotation q = Empty) \<and> bind sg args kw = Inr b \<longrightarrow> matches sg args kw)"
proof (intro conjI impI)
  assume "lookup_param sg n = Some p \<and> annotation p = Empty"
  then show "check_types sg ((n, v) # rest) = check_types sg rest" by simp
next
  assume a: "(\<forall>q \<in> set sg. annotation q = Empty) \<and> bind sg args kw = Inr b"
  then have "check_types sg (apply_defaults sg b) = Inr ()"
    using check_types_all_Empty[OF _ apply_defaults_names] by blast
  with a show "matches sg args kw" by (simp add: matches_def try_candidate_def)
qed

theorem no_annotation_accepted_witness:
  "lookup_param [param ''x'' Empty None] ''x'' = Some (param ''x'' Empty None)
   \<and> annotation (param ''x'' Empty None) = Empty
   \<and> check_types [param ''x'' Empty None] [(''x'', VTuple [VNone])] = Inr ()
   \<and> bind [param ''x'' Empty None] [VTuple [VNone]] [] = Inr [(''x'', VTuple [VNone])]
   \<and> matches [param ''x'' Empty None] [VTuple [VNone]] []"
proof -
  have l: "lookup_param [param ''x'' Empty None] ''x'' = Some (param ''x'' Empty None)"
    by (simp add: eval_defs)
  have a: "annotation (param ''x'' Empty None) = Empty" by (simp add: param_def)
  have b: "bind [param ''x'' Empty None] [VTuple [VNone]] [] = Inr [(''x'', VTuple [VNone])]"
    by (simp add: eval_defs)
  have q: "\<forall>q \<in> set [param ''x'' Empty None]. annotation q = Empty" by (simp add: param_def)
  from no_annotation_accepted[of "[param ''x'' Empty None]" "''x''" "param ''x'' Empty None"
      "VTuple [VNone]" "[]" "[VTuple [VNone]]" "[]" "[(''x'', VTuple [VNone])]"] l a b q
  have "check_types [param ''x'' Empty None] [(''x'', VTuple [VNone])] = Inr ()
        \<and> matches [param ''x'' Empty None] [VTuple [VNone]] []" by simp
  with l a b show ?thesis by blast
qed

text \<open>
  C10. Two calls in a row with the same arguments, the second in the world the first one
  left. What dispatch selects depends on the object only through its name and the
  sequence of its candidates' signatures: when the first call has left these as they
  were, the second call selects the same index (or fails alike), whatever else the body
  changed. When moreover the body at the selected index is still the same and its result
  does not depend on the world, the second call returns what the first returned.
\<close>

theorem call_twice_deterministic:
  assumes "name (self (snd (call_obj self args kw w))) = name (self w)"
    and "map sig (fns (self (snd (call_obj self args kw w)))) = map sig (fns (self w))"
  shows "dispatch (self (snd (call_obj self args kw w))) args kw = dispatch (self w) args kw
    \<and> ((\<forall>i. dispatch (self w) args kw = Inr i \<longrightarrow>
           body (fns (self (snd (call_obj self args kw w))) ! i) = body (fns (self w) ! i)
           \<and> (\<forall>u u'. fst (body (fns (self w) ! i) args kw u)
                      = fst (body (fns (self w) ! i) args kw u')))
        \<longrightarrow> fst (call_obj self args kw (snd (call_obj self args kw w)))
              = fst (call_obj self args kw w))"
proof -
  let ?w1 = "snd (call_obj self args kw w)"
  have d: "dispatch (self ?w1) args kw = dispatch (self w) args kw"
    using dispatch_loop_sig[OF assms(2), of "name (self w)" 0 args kw] assms(1)
    by (simp add: dispatch_def)
  have len: "length (fns (self ?w1)) = length (fns (self w))"
    using assms(2) by (rule map_eq_imp_length_eq)
  have "fst (call_obj self args kw ?w1) = fst (call_obj self args kw w)"
    if p: "\<forall>i. dispatch (self w) args kw = Inr i \<longrightarrow>
           body (fns (self ?w1) ! i) = body (fns (self w) ! i)
           \<and> (\<forall>u u'. fst (body (fns (self w) ! i) args kw u)
                      = fst (body (fns (self w) ! i) args kw u'))"
  proof (cases "dispatch (self w) args kw")
    case (Inl e)
    with d show ?thesis by (simp add: call_obj_def call_def)
  next
    case (Inr i)
    from dispatch_loop_Inr[OF Inr[unfolded dispatch_def]] have i: "i < length (fns (self w))"
      by simp
    from p Inr have b: "body (fns (self ?w1) ! i) = body (fns (self w) ! i)"
      and q: "fst (body (fns (self w) ! i) args kw ?w1) = fst (body (fns (self w) ! i) args kw w)"
      by blast+
    have 1: "call_obj self args kw w = body (fns (self w) ! i) args kw w"
      using Inr i by (simp add: call_obj_def call_def)
    have 2: "call_obj self args kw ?w1 = body (fns (self w) ! i) args kw ?w1"
      using Inr i d len b by (simp add: call_obj_def call_def)
    have "fst (call_obj self args kw ?w1) = fst (body (fns (self w) ! i) args kw ?w1)"
      by (simp only: 2)
    also have "\<dots> = fst (body (fns (self w) ! i) args kw w)" by (rule q)
    also have "\<dots> = fst (call_obj self args kw w)" by (simp only: 1)
    finally show ?thesis .
  qed
  with d show ?thesis by blast
qed

theorem call_twice_deterministic_witness:
  "call_obj counted_obj [VInt 1] [] 0 = (Inr (VInt 7), 1)
   \<and> register (counted_obj 0) \<and> \<not> register (counted_obj 1)
   \<and> dispatch (counted_obj 0) [VInt 1] [] = Inr 0
   \<and> dispatch (counted_obj 1) [VInt 1] [] = Inr 0
   \<and> call_obj counted_obj [VInt 1] [] 1 = (Inr (VInt 7), 2)"
proof -
  have c0: "call_obj counted_obj [VInt 1] [] 0 = (Inr (VInt 7), 1)"
    by (simp add: call_obj_def counted_obj_def counted_def tick_def eval_defs)
  have c1: "call_obj counted_obj [VInt 1] [] 1 = (Inr (VInt 7), 2)"
    by (simp add: call_obj_def counted_obj_def counted_def tick_def eval_defs)
  have d0: "dispatch (counted_obj 0) [VInt 1] [] = Inr 0"
    by (simp add: counted_obj_def counted_def eval_defs)
  have a1: "name (counted_obj (snd (call_obj counted_obj [VInt 1] [] 0))) = name (counted_obj 0)"
    by (simp add: counted_obj_def)
  have a2: "map sig (fns (counted_obj (snd (call_obj counted_obj [VInt 1] [] 0))))
      = map sig (fns (counted_obj 0))"
    by (simp add: counted_obj_def)
  have b0: "body (fns (counted_obj w') ! 0) = tick" for w'
    by (simp add: counted_obj_def counted_def func_def)
  have p: "\<forall>i. dispatch (counted_obj 0) [VInt 1] [] = Inr i \<longrightarrow>
      body (fns (counted_obj (snd (call_obj counted_obj [VInt 1] [] 0))) ! i)
        = body (fns (counted_obj 0) ! i)
      \<and> (\<forall>u u'. fst (body (fns (counted_obj 0) ! i) [VInt 1] [] u)
                 = fst (body (fns (counted_obj 0) ! i) [VInt 1] [] u'))"
  proof (intro allI impI)
    fix i assume "dispatch (counted_obj 0) [VInt 1] [] = Inr i"
    with d0 have "i = 0" by simp
    then show "body (fns (counted_obj (snd (call_obj counted_obj [VInt 1] [] 0))) ! i)
        = body (fns (counted_obj 0) ! i)
      \<and> (\<forall>u u'. fst (body (fns (counted_obj 0) ! i) [VInt 1] [] u)
                 = fst (body (fns (counted_obj 0) ! i) [VInt 1] [] u'))"
      by (simp add: b0 tick_def)
  qed
  from call_twice_deterministic[OF a1 a2] p
  have "dispatch (counted_obj (snd (call_obj counted_obj [VInt 1] [] 0))) [VInt 1] []
      = dispatch (counted_obj 0) [VInt 1] []"
    and "fst (call_obj counted_obj [VInt 1] [] (snd (call_obj counted_obj [VInt 1] [] 0)))
      = fst (call_obj counted_obj [VInt 1] [] 0)"
    by blast+
  with c0 d0 have "dispatch (counted_obj 1) [VInt 1] [] = Inr 0" by simp
  with c0 c1 d0 show ?thesis by (simp add: counted_obj_def)
qed

text \<open>
  Without the condition the two calls can differ: the body below empties the group, and
  the second call finds no candidate.
\<close>

lemma call_twice_mutated_group:
  "call_obj cleared_obj [] [] False = (Inr VNone, True)
   \<and> call_obj cleared_obj [] [] True = (Inl (TypeError (no_match_msg ''f'')), True)"
  by (simp add: call_obj_def cleared_obj_def clearing_def call_def dispatch_def func_def
      try_candidate_def bind_def)

section \<open>Properties of registration\<close>

lemma get_overload_registry_keeps:
  "get_overload_registry s = (r, s2) \<Longrightarrow>
   heap s2 = heap s \<and> frames s2 = frames s \<and> next_ref s2 = next_ref s
   \<and> overload_registry s2 = Some r"
  by (auto simp: get_overload_registry_def split: option.splits if_splits)

lemma publish_ok:
  assumes "fn_module fn = Some m" and "fn_qualname fn = Some q" and "co_firstlineno fn = Some l"
  shows "\<exists>s' r. publish fn s = Inr ((), s') \<and> heap s' = heap s \<and> frames s' = frames s
    \<and> next_ref s' = next_ref s \<and> overload_registry s' = Some r
    \<and> registries s' r m q l = Some fn"
proof -
  obtain r s2 where g: "get_overload_registry s = (r, s2)"
    by (cases "get_overload_registry s")
  from get_overload_registry_keeps[OF g] g assms show ?thesis
    by (simp add: publish_def registry_set_def)
qed

lemma add_ok:
  assumes "register (heap s self) \<longrightarrow>
    (\<exists>m q l. fn_module fn = Some m \<and> fn_qualname fn = Some q \<and> co_firstlineno fn = Some l)"
  shows "\<exists>s'. add self fn s = Inr (self, s')
    \<and> heap s' = (heap s)(self := (heap s self)\<lparr>fns := fns (heap s self) @ [fn]\<rparr>)
    \<and> frames s' = frames s \<and> next_ref s' = next_ref s"
proof (cases "register (heap s self)")
  case True
  let ?s1 = "s\<lparr>heap := (heap s)(self := (heap s self)\<lparr>fns := fns (heap s self) @ [fn]\<rparr>)\<rparr>"
  from True assms obtain m q l where
    "fn_module fn = Some m" "fn_qualname fn = Some q" "co_firstlineno fn = Some l" by blast
  from publish_ok[OF this, of ?s1] obtain s' where
    "publish fn ?s1 = Inr ((), s')" "heap s' = heap ?s1" "frames s' = frames ?s1"
    "next_ref s' = next_ref ?s1" by blast
  with True show ?thesis by (simp add: add_def Let_def)
next
  case False
  then show ?thesis by (simp add: add_def Let_def)
qed

lemma add_function_object:
  "\<exists>s'. add self (function_object d) s = Inr (self, s')
    \<and> heap s' = (heap s)(self := (heap s self)\<lparr>fns := fns (heap s self) @ [function_object d]\<rparr>)
    \<and> frames s' = frames s \<and> next_ref s' = next_ref s"
  by (rule add_ok) (simp add: function_object_def)

text \<open>
  C9. \<^verbatim>\<open>add\<close> is to append the candidate, publish it when \<^verbatim>\<open>register\<close> is set, and return
  the group, for every candidate. With \<^verbatim>\<open>register\<close> set and the built-in \<^verbatim>\<open>len\<close> as the
  candidate it appends and then raises \<^verbatim>\<open>AttributeError\<close>, since \<^verbatim>\<open>len\<close> has no
  \<^verbatim>\<open>__code__\<close>: nothing is returned and nothing is published. With \<^verbatim>\<open>greet1\<close>, a function
  definition, the same call returns the group and publishes the candidate.
\<close>

theorem add_builtin_raises:
  "(case add 0 builtin_len (snd (new_FunctionOverload ''size'' True initial_state)) of
      Inl (e, s') \<Rightarrow>
        e = AttributeError ''__code__'' \<and> fns (heap s' 0) = [builtin_len]
        \<and> registries s' TypingRegistry ''builtins'' ''len'' = (\<lambda>l. None)
    | Inr (r, s') \<Rightarrow> False)
   \<and> (case add 0 greet1 (snd (new_FunctionOverload ''greet'' True initial_state)) of
      Inl (e, s') \<Rightarrow> False
    | Inr (r, s') \<Rightarrow>
        r = 0 \<and> fns (heap s' 0) = [greet1]
        \<and> registries s' TypingRegistry ''__main__'' ''greet'' 1 = Some greet1)"
  by (simp add: add_def publish_def get_overload_registry_def new_FunctionOverload_def
      initial_state_def builtin_len_def greet1_def func_def registry_set_def Let_def)

text \<open>
  C7, as stated, fails for \<^verbatim>\<open>None\<close>: it is neither a string nor callable, and
  \<^verbatim>\<open>overload(None)\<close> returns the inner decorator, as \<^verbatim>\<open>overload()\<close> does.
\<close>

theorem overload_None_accepted:
  "\<not> callable (Val VNone :: unit pyarg) \<and> \<not> is_str (Val VNone :: unit pyarg)
   \<and> overload (Val VNone) initial_state = Inr (Decorator None, initial_state)"
  by (simp add: overload_def issubclass_def)

text \<open>
  C7, amended. An argument that is neither callable, nor \<^verbatim>\<open>None\<close>, nor a string makes
  \<^verbatim>\<open>overload\<close> raise the \<^verbatim>\<open>TypeError\<close> that asks for a function name, and nothing else
  happens.
\<close>

theorem overload_rejects_other_arguments:
  assumes "\<not> callable arg" and "\<not> is_None arg" and "\<not> is_str arg"
  shows "overload arg s = Inl (TypeError ''expected function name as argument'', s)"
proof (cases arg)
  case (Fn fn)
  with assms(1) show ?thesis by simp
next
  case (Val v)
  with assms(2,3) show ?thesis
    by (cases v) (simp_all add: overload_def issubclass_def)
qed

theorem overload_rejects_other_arguments_witness:
  "\<not> callable (Val (VInt 3) :: unit pyarg) \<and> \<not> is_None (Val (VInt 3) :: unit pyarg)
   \<and> \<not> is_str (Val (VInt 3) :: unit pyarg)
   \<and> overload (Val (VInt 3)) initial_state
       = Inl (TypeError ''expected function name as argument'', initial_state)"
proof -
  have a: "\<not> callable (Val (VInt 3) :: unit pyarg)" by simp
  have b: "\<not> is_None (Val (VInt 3) :: unit pyarg)" by simp
  have c: "\<not> is_str (Val (VInt 3) :: unit pyarg)" by (simp add: issubclass_def)
  from overload_rejects_other_arguments[OF a b c, of initial_state] a b c
  show ?thesis by blast
qed

lemma target_name_function_object:
  "target_name None (function_object d) = Inr (def_name d)"
  "a \<noteq> [] \<Longrightarrow> target_name (Some a) (function_object d) = Inr a"
  by (simp_all add: target_name_def get_name_def function_object_def)

lemma decorator_existing:
  assumes "target_name arg fn = Inr nm" and "lvl < length (frames s)"
    and "(frames s ! lvl) nm = Some (Group r)" and "add r fn s = Inr (r, s1)"
  shows "decorator arg fn lvl s = Inr (r, set_local lvl nm (Group r) s1)"
  using assms by (simp add: decorator_def)

lemma decorator_fresh:
  assumes "target_name arg fn = Inr nm" and "lvl < length (frames s)"
    and "(frames s ! lvl) nm = None"
    and "add (next_ref s) fn (snd (new_FunctionOverload nm True s)) = Inr (next_ref s, s1)"
  shows "decorator arg fn lvl s = Inr (next_ref s, set_local lvl nm (Group (next_ref s)) s1)"
  using assms by (simp add: decorator_def new_FunctionOverload_def)

lemma def_bare_existing:
  assumes "frames s = fr # rest" and "fr (def_name d) = Some (Group r)"
  shows "\<exists>s'. def_bare d s = Inr (r, s')
    \<and> heap s' = (heap s)(r := (heap s r)\<lparr>fns := fns (heap s r) @ [function_object d]\<rparr>)
    \<and> next_ref s' = next_ref s
    \<and> frames s' = fr(def_name d := Some (Group r)) # rest"
proof -
  let ?s2 = "push_frame (push_frame s)"
  have l: "2 < length (frames ?s2)" using assms(1) by (simp add: push_frame_def)
  have b: "(frames ?s2 ! 2) (def_name d) = Some (Group r)"
    using assms by (simp add: push_frame_def)
  from add_function_object[of r d ?s2] obtain s1 where
    a: "add r (function_object d) ?s2 = Inr (r, s1)"
    and h: "heap s1 = (heap ?s2)(r := (heap ?s2 r)\<lparr>fns := fns (heap ?s2 r) @ [function_object d]\<rparr>)"
    and f: "frames s1 = frames ?s2" and n: "next_ref s1 = next_ref ?s2" by blast
  have dd: "decorator None (function_object d) 2 ?s2 =
      Inr (r, set_local 2 (def_name d) (Group r) s1)"
    by (rule decorator_existing[OF target_name_function_object(1) l b a])
  have "def_bare d s = Inr (r, set_local 0 (def_name d) (Group r)
      (pop_frame (pop_frame (set_local 2 (def_name d) (Group r) s1))))"
    by (simp only: def_bare_def overload_def pyarg.case dd sum.case prod.case
        overload_result.case)
  moreover have "heap (set_local 0 (def_name d) (Group r)
      (pop_frame (pop_frame (set_local 2 (def_name d) (Group r) s1))))
      = (heap s)(r := (heap s r)\<lparr>fns := fns (heap s r) @ [function_object d]\<rparr>)"
    by (simp add: set_local_def pop_frame_def h push_frame_def)
  moreover have "next_ref (set_local 0 (def_name d) (Group r)
      (pop_frame (pop_frame (set_local 2 (def_name d) (Group r) s1)))) = next_ref s"
    by (simp add: set_local_def pop_frame_def n push_frame_def)
  moreover have "frames (set_local 0 (def_name d) (Group r)
      (pop_frame (pop_frame (set_local 2 (def_name d) (Group r) s1))))
      = fr(def_name d := Some (Group r)) # rest"
    by (simp add: set_local_def pop_frame_def f push_frame_def assms(1) numeral_2_eq_2)
  ultimately show ?thesis by blast
qed

lemma def_named_existing:
  assumes "frames s = fr # rest" and "a \<noteq> []" and "fr a = Some (Group r)"
  shows "\<exists>s'. def_named (VStr a) d s = Inr (r, s')
    \<and> heap s' = (heap s)(r := (heap s r)\<lparr>fns := fns (heap s r) @ [function_object d]\<rparr>)
    \<and> next_ref s' = next_ref s
    \<and> frames s' = fr(a := Some (Group r), def_name d := Some (Group r)) # rest"
proof -
  let ?s1 = "push_frame (pop_frame (push_frame s))"
  have l: "1 < length (frames ?s1)" using assms(1) by (simp add: push_frame_def pop_frame_def)
  have b: "(frames ?s1 ! 1) a = Some (Group r)"
    using assms by (simp add: push_frame_def pop_frame_def)
  from add_function_object[of r d ?s1] obtain s1 where
    a: "add r (function_object d) ?s1 = Inr (r, s1)"
    and h: "heap s1 = (heap ?s1)(r := (heap ?s1 r)\<lparr>fns := fns (heap ?s1 r) @ [function_object d]\<rparr>)"
    and f: "frames s1 = frames ?s1" and n: "next_ref s1 = next_ref ?s1" by blast
  have dd: "decorator (Some a) (function_object d) 1 ?s1 = Inr (r, set_local 1 a (Group r) s1)"
    by (rule decorator_existing[OF target_name_function_object(2)[OF assms(2)] l b a])
  have "def_named (VStr a) d s = Inr (r, set_local 0 (def_name d) (Group r)
      (pop_frame (set_local 1 a (Group r) s1)))"
    by (simp only: def_named_def overload_def pyarg.case pyval.case dd sum.case prod.case
        overload_result.case)
  moreover have "heap (set_local 0 (def_name d) (Group r) (pop_frame (set_local 1 a (Group r) s1)))
      = (heap s)(r := (heap s r)\<lparr>fns := fns (heap s r) @ [function_object d]\<rparr>)"
    by (simp add: set_local_def pop_frame_def h push_frame_def)
  moreover have "next_ref (set_local 0 (def_name d) (Group r)
      (pop_frame (set_local 1 a (Group r) s1))) = next_ref s"
    by (simp add: set_local_def pop_frame_def n push_frame_def)
  moreover have "frames (set_local 0 (def_name d) (Group r) (pop_frame (set_local 1 a (Group r) s1)))
      = fr(a := Some (Group r), def_name d := Some (Group r)) # rest"
    by (simp add: set_local_def pop_frame_def f push_frame_def assms(1))
  ultimately show ?thesis by blast
qed

text \<open>
  C8. When the scope already binds the name to a group, a further decorated definition
  under that name returns that same group with the new function appended to its
  sequence, creates no group, changes no other group, and leaves the name bound to the
  group in that scope. This holds for \<^verbatim>\<open>@overload\<close>, where the name is the function's, and
  for \<^verbatim>\<open>@overload(a)\<close> with a name \<^verbatim>\<open>a\<close>. Two definitions of one name in a fresh scope
  therefore give one group of length two.
\<close>

theorem redefinition_extends_group:
  assumes "frames s = fr # rest"
  shows "(fr (def_name d) = Some (Group r) \<longrightarrow>
      (\<exists>s' fr'. def_bare d s = Inr (r, s')
         \<and> fns (heap s' r) = fns (heap s r) @ [function_object d]
         \<and> length (fns (heap s' r)) = Suc (length (fns (heap s r)))
         \<and> next_ref s' = next_ref s
         \<and> (\<forall>r'. r' \<noteq> r \<longrightarrow> heap s' r' = heap s r')
         \<and> frames s' = fr' # rest \<and> fr' (def_name d) = Some (Group r)))
    \<and> (a \<noteq> [] \<and> fr a = Some (Group r) \<longrightarrow>
      (\<exists>s' fr'. def_named (VStr a) d s = Inr (r, s')
         \<and> fns (heap s' r) = fns (heap s r) @ [function_object d]
         \<and> length (fns (heap s' r)) = Suc (length (fns (heap s r)))
         \<and> next_ref s' = next_ref s
         \<and> (\<forall>r'. r' \<noteq> r \<longrightarrow> heap s' r' = heap s r')
         \<and> frames s' = fr' # rest \<and> fr' a = Some (Group r)))"
proof (intro conjI impI)
  assume b: "fr (def_name d) = Some (Group r)"
  from def_bare_existing[OF assms b] obtain s' where
    "def_bare d s = Inr (r, s')"
    "heap s' = (heap s)(r := (heap s r)\<lparr>fns := fns (heap s r) @ [function_object d]\<rparr>)"
    "next_ref s' = next_ref s" "frames s' = fr(def_name d := Some (Group r)) # rest"
    by blast
  then show "\<exists>s' fr'. def_bare d s = Inr (r, s')
         \<and> fns (heap s' r) = fns (heap s r) @ [function_object d]
         \<and> length (fns (heap s' r)) = Suc (length (fns (heap s r)))
         \<and> next_ref s' = next_ref s
         \<and> (\<forall>r'. r' \<noteq> r \<longrightarrow> heap s' r' = heap s r')
         \<and> frames s' = fr' # rest \<and> fr' (def_name d) = Some (Group r)"
    by (intro exI[of _ s'] exI[of _ "fr(def_name d := Some (Group r))"]) simp
next
  assume b: "a \<noteq> [] \<and> fr a = Some (Group r)"
  then have b1: "a \<noteq> []" and b2: "fr a = Some (Group r)" by simp_all
  from def_named_existing[OF assms b1 b2] obtain s' where
    "def_named (VStr a) d s = Inr (r, s')"
    "heap s' = (heap s)(r := (heap s r)\<lparr>fns := fns (heap s r) @ [function_object d]\<rparr>)"
    "next_ref s' = next_ref s"
    "frames s' = fr(a := Some (Group r), def_name d := Some (Group r)) # rest"
    by blast
  then show "\<exists>s' fr'. def_named (VStr a) d s = Inr (r, s')
         \<and> fns (heap s' r) = fns (heap s r) @ [function_object d]
         \<and> length (fns (heap s' r)) = Suc (length (fns (heap s r)))
         \<and> next_ref s' = next_ref s
         \<and> (\<forall>r'. r' \<noteq> r \<longrightarrow> heap s' r' = heap s r')
         \<and> frames s' = fr' # rest \<and> fr' a = Some (Group r)"
    by (intro exI[of _ s']
        exI[of _ "fr(a := Some (Group r), def_name d := Some (Group r))"]) simp
qed

lemma def_bare_fresh:
  assumes "frames s = fr # rest" and "fr (def_name d) = None"
  shows "\<exists>s'. def_bare d s = Inr (next_ref s, s')
    \<and> heap s' = (heap s)(next_ref s :=
        \<lparr>name = def_name d, register = True, fns = [function_object d]\<rparr>)
    \<and> next_ref s' = Suc (next_ref s)
    \<and> frames s' = fr(def_name d := Some (Group (next_ref s))) # rest"
proof -
  let ?s2 = "push_frame (push_frame s)"
  let ?s0 = "snd (new_FunctionOverload (def_name d) True ?s2)"
  have l: "2 < length (frames ?s2)" using assms(1) by (simp add: push_frame_def)
  have b: "(frames ?s2 ! 2) (def_name d) = None"
    using assms by (simp add: push_frame_def)
  have nr: "next_ref ?s2 = next_ref s" by (simp add: push_frame_def)
  from add_function_object[of "next_ref s" d ?s0] obtain s1 where
    a: "add (next_ref s) (function_object d) ?s0 = Inr (next_ref s, s1)"
    and h: "heap s1 = (heap ?s0)(next_ref s :=
        (heap ?s0 (next_ref s))\<lparr>fns := fns (heap ?s0 (next_ref s)) @ [function_object d]\<rparr>)"
    and f: "frames s1 = frames ?s0" and n: "next_ref s1 = next_ref ?s0" by blast
  have dd: "decorator None (function_object d) 2 ?s2 =
      Inr (next_ref s, set_local 2 (def_name d) (Group (next_ref s)) s1)"
    using decorator_fresh[OF target_name_function_object(1) l b, of s1] a nr by simp
  have "def_bare d s = Inr (next_ref s, set_local 0 (def_name d) (Group (next_ref s))
      (pop_frame (pop_frame (set_local 2 (def_name d) (Group (next_ref s)) s1))))"
    by (simp only: def_bare_def overload_def pyarg.case dd sum.case prod.case
        overload_result.case)
  moreover have "heap (set_local 0 (def_name d) (Group (next_ref s))
      (pop_frame (pop_frame (set_local 2 (def_name d) (Group (next_ref s)) s1))))
      = (heap s)(next_ref s := \<lparr>name = def_name d, register = True, fns = [function_object d]\<rparr>)"
    by (simp add: set_local_def pop_frame_def h push_frame_def new_FunctionOverload_def)
  moreover have "next_ref (set_local 0 (def_name d) (Group (next_ref s))
      (pop_frame (pop_frame (set_local 2 (def_name d) (Group (next_ref s)) s1))))
      = Suc (next_ref s)"
    by (simp add: set_local_def pop_frame_def n push_frame_def new_FunctionOverload_def)
  moreover have "frames (set_local 0 (def_name d) (Group (next_ref s))
      (pop_frame (pop_frame (set_local 2 (def_name d) (Group (next_ref s)) s1))))
      = fr(def_name d := Some (Group (next_ref s))) # rest"
    by (simp add: set_local_def pop_frame_def f push_frame_def new_FunctionOverload_def
        assms(1) numeral_2_eq_2)
  ultimately show ?thesis by blast
qed

theorem redefinition_extends_group_witness:
  "function_object greet1_stmt = greet1 \<and> function_object greet2_stmt = greet2
   \<and> def_bare greet1_stmt initial_state = Inr (0, state1)
   \<and> frames state1 = [(\<lambda>n. None)(''greet'' := Some (Group 0))]
   \<and> fns (heap state1 0) = [greet1]
   \<and> next_ref state1 = 1
   \<and> (case def_bare greet2_stmt state1 of
         Inl e \<Rightarrow> False
       | Inr (r, s') \<Rightarrow>
           r = 0 \<and> fns (heap s' 0) = [greet1, greet2] \<and> length (fns (heap s' 0)) = 2
           \<and> next_ref s' = 1 \<and> hd (frames s') ''greet'' = Some (Group 0))"
proof -
  have o1: "function_object greet1_stmt = greet1"
    by (simp add: function_object_def greet1_stmt_def stmt_def greet1_def func_def)
  have o2: "function_object greet2_stmt = greet2"
    by (simp add: function_object_def greet2_stmt_def stmt_def greet2_def func_def)
  have n1: "def_name greet1_stmt = ''greet''" and n2: "def_name greet2_stmt = ''greet''"
    by (simp_all add: greet1_stmt_def greet2_stmt_def stmt_def)
  have f0: "frames initial_state = (\<lambda>n. None) # []" and r0: "next_ref initial_state = 0"
    by (simp_all add: initial_state_def)
  from def_bare_fresh[OF f0, of greet1_stmt] obtain s1 where
    d1: "def_bare greet1_stmt initial_state = Inr (0, s1)"
    and h1: "heap s1 = (heap initial_state)(0 :=
        \<lparr>name = ''greet'', register = True, fns = [greet1]\<rparr>)"
    and nr1: "next_ref s1 = 1"
    and fr1: "frames s1 = (\<lambda>n. None)(''greet'' := Some (Group 0)) # []"
    by (auto simp: r0 n1 o1)
  from d1 have s1: "state1 = s1" by (simp add: state1_def)
  have b: "((\<lambda>n. None)(''greet'' := Some (Group 0))) (def_name greet2_stmt) = Some (Group 0)"
    by (simp add: n2)
  from redefinition_extends_group[OF fr1, of greet2_stmt 0] b
  obtain s' fr' where r: "def_bare greet2_stmt s1 = Inr (0, s')"
    "fns (heap s' 0) = fns (heap s1 0) @ [function_object greet2_stmt]"
    "next_ref s' = next_ref s1"
    "frames s' = fr' # []" "fr' (def_name greet2_stmt) = Some (Group 0)"
    by blast
  from r h1 nr1 n2 o2 have "(case def_bare greet2_stmt s1 of
         Inl e \<Rightarrow> False
       | Inr (r, s') \<Rightarrow>
           r = 0 \<and> fns (heap s' 0) = [greet1, greet2] \<and> length (fns (heap s' 0)) = 2
           \<and> next_ref s' = 1 \<and> hd (frames s') ''greet'' = Some (Group 0))"
    by simp
  with o1 o2 d1 s1 fr1 h1 nr1 show ?thesis by simp
qed

end
